theory Spec2Isabelle
  imports Main "HOL-Library.Char_ord" "HOL-Library.List_Lexorder" "HOL-Library.Multiset"
begin

section \<open>Bundle tracker (package tracker)\<close>

subsection \<open>Time\<close>

text \<open>
  A Go \<^verbatim>\<open>time.Time\<close> is modelled by the instant it denotes: the number of nanoseconds
  since Go's zero time (January 1, year 1, 00:00:00 UTC), an unbounded integer. The
  location of a time value does not change the instant, so \<^verbatim>\<open>UTC()\<close> is the identity
  on instants. The current time \<^verbatim>\<open>time.Now()\<close> is an explicit argument \<open>now\<close> of
  every function that reads the clock.
\<close>

type_synonym time = int
type_synonym duration = int

definition Nanosecond :: duration where "Nanosecond = 1"
definition Second :: duration where "Second = 1000000000 * Nanosecond"
definition Minute :: duration where "Minute = 60 * Second"
definition Hour :: duration where "Hour = 60 * Minute"

text \<open>\<^verbatim>\<open>t.After(u)\<close>: the instant t is after u.\<close>

definition After :: "time \<Rightarrow> time \<Rightarrow> bool" where
  "After t u = (u < t)"

text \<open>\<^verbatim>\<open>t.Add(d)\<close>.\<close>

definition Add :: "time \<Rightarrow> duration \<Rightarrow> time" where
  "Add t d = t + d"

text \<open>\<^verbatim>\<open>t.UTC()\<close>: the same instant, presented in UTC.\<close>

definition UTC :: "time \<Rightarrow> time" where
  "UTC t = t"

text \<open>
  \<^verbatim>\<open>t.Round(d)\<close> of the Go standard library: the result of rounding t to the nearest
  multiple of d since the zero time; halfway values round up; for \<open>d \<le> 0\<close> the time is
  returned unchanged. The library computes the remainder r of t by d and returns
  \<open>t - r\<close> when \<open>r + r < d\<close>, and \<open>t + (d - r)\<close> otherwise.
\<close>

definition Round :: "time \<Rightarrow> duration \<Rightarrow> time" where
  "Round t d =
     (if d \<le> 0 then t
      else (let r = t mod d in
            if r + r < d then Add t (- r) else Add t (d - r)))"

subsection \<open>Records and the tracker\<close>

record bundleRecord =
  Digest :: string
  EffectiveOn :: time
  Tag :: string
  Repository :: string
  Collection :: string

definition pipelineCollection :: string where
  "pipelineCollection = ''pipeline-bundles''"

definition taskCollection :: string where
  "taskCollection = ''task-bundles''"

text \<open>
  A Go map is a reference that may be \<^verbatim>\<open>nil\<close>: \<open>None\<close> is the nil map, \<open>Some m\<close> an
  allocated one. Reading a nil map finds no key; assigning to an entry of a nil map panics.
\<close>

type_synonym collection = "string \<rightharpoonup> bundleRecord list"

record Tracker =
  PipelineBundles :: "collection option"
  TaskBundles :: "collection option"

datatype panic = AssignmentToEntryInNilMap

subsection \<open>effectiveOn\<close>

text \<open>
  \<^verbatim>\<open>
  func effectiveOn() time.Time {
      day := time.Hour * 24
      duration := day * 30
      return time.Now().Add(duration).UTC().Round(day)
  }
  \<close>
\<close>

definition effectiveOn :: "time \<Rightarrow> time" where
  "effectiveOn now =
     (let day = Hour * 24;
          duration = day * 30
      in Round (UTC (Add now duration)) day)"

subsection \<open>filterRecords\<close>

text \<open>
  The first loop of \<^verbatim>\<open>filterRecords\<close>:
  \<^verbatim>\<open>
  for i := last_index; i >= 0; i-- {
      r := records[i]
      if i < last_index {
          previous := records[i+1]
          if previous.Digest == r.Digest { continue }
      }
      unique = append([]bundleRecord{r}, unique...)
  }
  \<close>
  The index is a Go int that ends at -1, so it is an \<open>int\<close> here; \<open>last_index\<close> is
  \<open>len(records) - 1\<close>. Started at \<open>last_index\<close>, every read \<open>records[i]\<close> and
  \<open>records[i+1]\<close> is in range.
\<close>

function dedupLoop :: "bundleRecord list \<Rightarrow> int \<Rightarrow> bundleRecord list \<Rightarrow> bundleRecord list" where
  "dedupLoop records i unique =
     (if 0 \<le> i then
        (let r = records ! nat i in
         if i < int (length records) - 1 \<and> Digest (records ! nat (i + 1)) = Digest r
         then dedupLoop records (i - 1) unique
         else dedupLoop records (i - 1) (r # unique))
      else unique)"
  by pat_completeness auto
termination
  by (relation "measure (\<lambda>(records, i, unique). nat (i + 1))") auto

declare dedupLoop.simps [simp del]

text \<open>
  The second loop:
  \<^verbatim>\<open>
  for _, r := range unique {
      relevant = append(relevant, r)
      if prune && now.After(r.EffectiveOn) { break }
  }
  \<close>
\<close>

fun pruneLoop :: "time \<Rightarrow> bool \<Rightarrow> bundleRecord list \<Rightarrow> bundleRecord list \<Rightarrow> bundleRecord list" where
  "pruneLoop now prune [] relevant = relevant"
| "pruneLoop now prune (r # unique) relevant =
     (let relevant' = relevant @ [r] in
      if prune \<and> After now (EffectiveOn r) then relevant'
      else pruneLoop now prune unique relevant')"

text \<open>The list \<open>unique\<close> that the first loop of \<^verbatim>\<open>filterRecords\<close> leaves.\<close>

definition uniqueRecords :: "bundleRecord list \<Rightarrow> bundleRecord list" where
  "uniqueRecords records =
     (let last_index = int (length records) - 1
      in dedupLoop records last_index [])"

definition filterRecords :: "time \<Rightarrow> bundleRecord list \<Rightarrow> bool \<Rightarrow> bundleRecord list" where
  "filterRecords now records prune =
     (let unique = uniqueRecords records;
          relevant = pruneLoop now prune unique []
      in relevant)"

subsection \<open>setDefaults and addBundleRecord\<close>

definition setDefaults :: "Tracker \<Rightarrow> Tracker" where
  "setDefaults t =
     (let t1 = (if PipelineBundles t = None then t\<lparr>PipelineBundles := Some Map.empty\<rparr> else t);
          t2 = (if TaskBundles t1 = None then t1\<lparr>TaskBundles := Some Map.empty\<rparr> else t1)
      in t2)"

text \<open>
  The tail of \<^verbatim>\<open>addBundleRecord\<close>, on the map that the switch selected:
  \<^verbatim>\<open>
  newRecords := []bundleRecord{record}
  if _, ok := collection[record.Repository]; !ok {
      collection[record.Repository] = newRecords
  } else {
      collection[record.Repository] = append(newRecords, collection[record.Repository]...)
  }
  \<close>
  Both branches assign to an entry of \<open>collection\<close>, which panics on a nil map.
\<close>

definition prependRecord :: "collection option \<Rightarrow> bundleRecord \<Rightarrow> panic + collection" where
  "prependRecord collection record =
     (let newRecords = [record] in
      case collection of
        None \<Rightarrow> Inl AssignmentToEntryInNilMap
      | Some m \<Rightarrow>
          (case m (Repository record) of
             None \<Rightarrow> Inr (m(Repository record \<mapsto> newRecords))
           | Some existing \<Rightarrow> Inr (m(Repository record \<mapsto> newRecords @ existing))))"

text \<open>
  \<^verbatim>\<open>
  func (t *Tracker) addBundleRecord(record bundleRecord) {
      var collection map[string][]bundleRecord
      switch record.Collection {
      case pipelineCollection: collection = t.PipelineBundles
      case taskCollection:     collection = t.TaskBundles
      default:
          log.Warnf("Ignoring record with unexpected collection: %#v", record)
          return
      }
      ...
  }
  \<close>
  \<open>collection\<close> aliases the map of the tracker, so the assignment through it is an
  update of the tracker's field. The method returns nothing; the model returns the
  tracker after the call, or the panic.
\<close>

definition addBundleRecord :: "Tracker \<Rightarrow> bundleRecord \<Rightarrow> panic + Tracker" where
  "addBundleRecord t record =
     (if Collection record = pipelineCollection then
        (case prependRecord (PipelineBundles t) record of
           Inl p \<Rightarrow> Inl p
         | Inr m \<Rightarrow> Inr (t\<lparr>PipelineBundles := Some m\<rparr>))
      else if Collection record = taskCollection then
        (case prependRecord (TaskBundles t) record of
           Inl p \<Rightarrow> Inl p
         | Inr m \<Rightarrow> Inr (t\<lparr>TaskBundles := Some m\<rparr>))
      else Inr t)"

subsection \<open>The loop of Track that adds records\<close>

text \<open>
  \<^verbatim>\<open>image.ImageReference\<close> (package \<^verbatim>\<open>internal/image\<close>): \<^verbatim>\<open>Track\<close> reads its repository,
  tag and digest.
\<close>

record ImageReference =
  RefRepository :: string
  RefTag :: string
  RefDigest :: string

datatype trackError =
  BundleInfoError string
| Panic panic

text \<open>
  \<^verbatim>\<open>
  for _, collection := range sets.List(info.collections) {
      t.addBundleRecord(bundleRecord{
          Digest: ref.Digest, Tag: ref.Tag, EffectiveOn: effective_on,
          Repository: ref.Repository, Collection: collection,
      })
  }
  \<close>
\<close>

fun addToCollections :: "Tracker \<Rightarrow> ImageReference \<Rightarrow> time \<Rightarrow> string list \<Rightarrow> panic + Tracker" where
  "addToCollections t ref effective_on [] = Inr t"
| "addToCollections t ref effective_on (collection # rest) =
     (case addBundleRecord t
             \<lparr>Digest = RefDigest ref, EffectiveOn = effective_on, Tag = RefTag ref,
              Repository = RefRepository ref, Collection = collection\<rparr> of
        Inl p \<Rightarrow> Inl p
      | Inr t' \<Rightarrow> addToCollections t' ref effective_on rest)"

text \<open>
  \<^verbatim>\<open>
  effective_on := effectiveOn()
  for _, ref := range refs {
      info, err := newBundleInfo(ctx, ref)
      if err != nil { return nil, err }
      for _, collection := range sets.List(info.collections) { ... }
  }
  \<close>
  \<^verbatim>\<open>newBundleInfo\<close> reads the bundle from the registry and is not part of the sources:
  it is the argument \<open>newBundleInfo\<close>, from a reference to an error or to the sorted list
  of the collections of the bundle.
\<close>

fun trackRefs ::
    "(ImageReference \<Rightarrow> string + string list) \<Rightarrow> Tracker \<Rightarrow> time \<Rightarrow> ImageReference list \<Rightarrow>
     trackError + Tracker" where
  "trackRefs newBundleInfo t effective_on [] = Inr t"
| "trackRefs newBundleInfo t effective_on (ref # refs) =
     (case newBundleInfo ref of
        Inl err \<Rightarrow> Inl (BundleInfoError err)
      | Inr collections \<Rightarrow>
          (case addToCollections t ref effective_on collections of
             Inl p \<Rightarrow> Inl (Panic p)
           | Inr t' \<Rightarrow> trackRefs newBundleInfo t' effective_on refs))"

section \<open>Output\<close>

text \<open>
  The document that \<^verbatim>\<open>yaml.Marshal\<close> emits for a tracker: the collections that are
  present, each with its repositories and their records, in the order in which they
  were emitted.
\<close>

type_synonym document = "(string \<times> (string \<times> bundleRecord list) list) list"

text \<open>
  Ranging over a Go map visits every key once, in an order that the runtime chooses anew
  for every loop. \<open>rangesOver keys c\<close>: \<open>keys\<close> is such an order for the map \<open>c\<close>.
\<close>

definition rangesOver :: "string list \<Rightarrow> collection option \<Rightarrow> bool" where
  "rangesOver keys c =
     (distinct keys \<and> set keys = (case c of None \<Rightarrow> {} | Some m \<Rightarrow> dom m))"

text \<open>
  Modelled from the spec: \<^verbatim>\<open>yaml.Marshal\<close> and \<^verbatim>\<open>yamlfmt.Format\<close> are libraries, missing
  from the sources. Section 4.6, step 8: the tracker is emitted as YAML and then
  canonicalised by a formatter with a stable key order. Section 6: the collections
  \<open>pipeline-bundles\<close> and \<open>task-bundles\<close>, each a mapping from repository to the list of
  its records, newest first, each record with its \<open>digest\<close>, \<open>effective_on\<close> and \<open>tag\<close>;
  repositories are sorted lexicographically. A collection that is nil or empty is left
  out (\<open>omitempty\<close>); the repository and the collection of a record are not persisted.
  \<open>Marshal\<close> emits the entries of a map in the order \<open>keys\<close> of its iteration; \<open>Format\<close>
  sorts the keys of every mapping and writes the lines. The text of a timestamp is the
  argument \<open>rfc3339\<close>; digests, tags and repository names are written as they are.
  Neither function fails in this model.
\<close>

definition marshalCollection :: "string list \<Rightarrow> collection \<Rightarrow> (string \<times> bundleRecord list) list" where
  "marshalCollection keys m =
     List.map_filter (\<lambda>repository. map_option (\<lambda>records. (repository, records)) (m repository)) keys"

definition Marshal :: "string list \<Rightarrow> string list \<Rightarrow> Tracker \<Rightarrow> string + document" where
  "Marshal pipelineKeys taskKeys t =
     Inr ((case PipelineBundles t of
             None \<Rightarrow> []
           | Some m \<Rightarrow> if length pipelineKeys = 0 then []
                       else [(pipelineCollection, marshalCollection pipelineKeys m)]) @
          (case TaskBundles t of
             None \<Rightarrow> []
           | Some m \<Rightarrow> if length taskKeys = 0 then []
                       else [(taskCollection, marshalCollection taskKeys m)]))"

definition formatRecord :: "(time \<Rightarrow> string) \<Rightarrow> bundleRecord \<Rightarrow> string list" where
  "formatRecord rfc3339 r =
     [''    - digest: '' @ Digest r,
      ''      effective_on: '' @ rfc3339 (EffectiveOn r),
      ''      tag: '' @ Tag r]"

definition formatRepository :: "(time \<Rightarrow> string) \<Rightarrow> string \<times> bundleRecord list \<Rightarrow> string list" where
  "formatRepository rfc3339 entry =
     (''  '' @ fst entry @ '':'') # concat (map (formatRecord rfc3339) (snd entry))"

definition formatCollection ::
    "(time \<Rightarrow> string) \<Rightarrow> string \<times> (string \<times> bundleRecord list) list \<Rightarrow> string list" where
  "formatCollection rfc3339 entry =
     (fst entry @ '':'') # concat (map (formatRepository rfc3339) (sort_key fst (snd entry)))"

definition Format :: "(time \<Rightarrow> string) \<Rightarrow> document \<Rightarrow> string + string" where
  "Format rfc3339 doc =
     Inr (concat (map (\<lambda>line. line @ [CHR 0x0A])
       (concat (map (formatCollection rfc3339) (sort_key fst doc)))))"

text \<open>
  \<^verbatim>\<open>
  func (t Tracker) Output() ([]byte, error) {
      out, err := yaml.Marshal(t)
      if err != nil { return nil, err }
      return yamlfmt.Format(bytes.NewBuffer(out), true)
  }
  \<close>
\<close>

definition Output :: "(time \<Rightarrow> string) \<Rightarrow> string list \<Rightarrow> string list \<Rightarrow> Tracker \<Rightarrow> string + string" where
  "Output rfc3339 pipelineKeys taskKeys t =
     (case Marshal pipelineKeys taskKeys t of
        Inl err \<Rightarrow> Inl err
      | Inr out \<Rightarrow> Format rfc3339 out)"

section \<open>Claim verifiers of the application snapshot image\<close>

text \<open>\<^verbatim>\<open>v1.Hash\<close>: an algorithm and a hex string; \<^verbatim>\<open>String()\<close> joins them with a colon.\<close>

record Hash =
  Algorithm :: string
  Hex :: string

definition String :: "Hash \<Rightarrow> string" where
  "String h = Algorithm h @ '':'' @ Hex h"

text \<open>
  \<^verbatim>\<open>payload.SimpleContainerImage\<close>, as the test builds it: the critical section with the
  image's manifest digest, and the optional section, a map of annotations.
\<close>

record Image =
  DockerManifestDigest :: string

record Critical =
  Image :: Image

record 'v SimpleContainerImage =
  Critical :: Critical
  Optional :: "string \<rightharpoonup> 'v"

text \<open>The errors of the two claim verifiers; \<open>Error\<close> is the message of \<^verbatim>\<open>err.Error()\<close>.\<close>

datatype claimError =
  InvalidOrMissingDigest string
| MissingOrIncorrectAnnotation
| NoMatchingSubjectDigest

fun Error :: "claimError \<Rightarrow> string" where
  "Error (InvalidOrMissingDigest claimed) = ''invalid or missing digest in claim: '' @ claimed"
| "Error MissingOrIncorrectAnnotation = ''missing or incorrect annotation''"
| "Error NoMatchingSubjectDigest = ''no matching subject digest found''"

text \<open>
  Modelled from the spec: the claim-verifier callback that \<^verbatim>\<open>ValidateImageSignature\<close>
  installs in the check options is missing from the sources (the test reads it back from
  the options and calls it). Section 4.3, image claim verifier: it accepts if the signed
  \<open>docker-manifest-digest\<close> exactly equals the expected digest, as strings in the full
  \<open>algo:hex\<close> form, and every expected annotation is in the signed optional map with an
  equal value; it fails with \<open>InvalidOrMissingDigest\<close> or \<open>MissingOrIncorrectAnnotation\<close>.
  The expected annotations are the entries of the caller's map (none for a nil map). The
  result \<open>None\<close> is Go's nil error.
\<close>

definition imageClaimVerifier ::
    "'v SimpleContainerImage \<Rightarrow> Hash \<Rightarrow> (string \<times> 'v) list \<Rightarrow> claimError option" where
  "imageClaimVerifier payload digest annotations =
     (let claimed = DockerManifestDigest (Image (Critical payload)) in
      if claimed \<noteq> String digest then Some (InvalidOrMissingDigest claimed)
      else if \<not> list_all (\<lambda>(key, val). Optional payload key = Some val) annotations
        then Some MissingOrIncorrectAnnotation
      else None)"

text \<open>
  \<^verbatim>\<open>in_toto.Subject\<close> and the header of \<^verbatim>\<open>in_toto.Statement\<close>, as the test builds them.
\<close>

record Subject =
  Name :: string
  DigestSet :: "string \<rightharpoonup> string"

record StatementHeader =
  Type :: string
  PredicateType :: string
  Subject :: "Subject list"

text \<open>
  Modelled from the spec: the claim-verifier callback that \<^verbatim>\<open>ValidateAttestationSignature\<close>
  installs is missing from the sources. Section 4.3, attestation claim verifier: on the
  header of the statement that the envelope carries, it accepts iff the subject array has
  an entry whose digest map has the pair of the expected algorithm and the expected hex;
  the first such entry in document order ends the search; otherwise it fails with
  \<open>NoMatchingSubjectDigest\<close>.
\<close>

fun subjectLoop :: "Hash \<Rightarrow> Subject list \<Rightarrow> claimError option" where
  "subjectLoop digest [] = Some NoMatchingSubjectDigest"
| "subjectLoop digest (subj # rest) =
     (if DigestSet subj (Algorithm digest) = Some (Hex digest) then None
      else subjectLoop digest rest)"

definition attestationClaimVerifier :: "StatementHeader \<Rightarrow> Hash \<Rightarrow> claimError option" where
  "attestationClaimVerifier statement digest = subjectLoop digest (Subject statement)"

section \<open>Attestation syntax validation\<close>

text \<open>
  An attestation, as \<^verbatim>\<open>ValidateAttestationSyntax\<close> reads it: the bytes of its statement and
  its predicate type. The aggregate holds the attestations collected so far.
\<close>

record Attestation =
  Statement :: string
  StatementPredicateType :: string

record ApplicationSnapshotImage =
  reference :: string
  attestations :: "Attestation list"

text \<open>
  The result of checking the bytes of one statement against the schema of a predicate
  type, as the JSON schema library gives it: the bytes do not decode (with the cause), or
  the list of the violations found, each a JSON pointer with a message (none for a valid
  statement). The library is not part of the sources; it is the argument \<open>schema\<close> of
  the functions below, from a predicate type and the bytes of a statement to this result.
\<close>

datatype schemaResult =
  DecodeError string
| Violations "(string \<times> string) list"

datatype evError =
  EV002 string
| EV003 string "(string \<times> string) list"

datatype syntaxError =
  Precondition string
| SyntaxErrors "evError list"

text \<open>
  Modelled from the spec: \<^verbatim>\<open>ValidateAttestationSyntax\<close> is missing from the sources (only
  its test is there). Section 4.4: a statement of empty bytes fails to decode, with the
  cause \<open>unexpected end of JSON input\<close>; a failure to decode is \<open>EV002\<close>; one or more
  schema violations are \<open>EV003\<close> with the pointer and message pairs; all attestations are
  validated, and the failures of all of them are reported. Section 4.5: with no
  attestation collected the operation refuses with \<open>no attestation data\<close>.
\<close>

definition validateStatement ::
    "(string \<Rightarrow> string \<Rightarrow> schemaResult) \<Rightarrow> Attestation \<Rightarrow> schemaResult" where
  "validateStatement schema att =
     (if Statement att = [] then DecodeError ''unexpected end of JSON input''
      else schema (StatementPredicateType att) (Statement att))"

fun validateAll ::
    "(string \<Rightarrow> string \<Rightarrow> schemaResult) \<Rightarrow> Attestation list \<Rightarrow> evError list \<Rightarrow> evError list" where
  "validateAll schema [] allErrors = allErrors"
| "validateAll schema (att # rest) allErrors =
     (case validateStatement schema att of
        DecodeError cause \<Rightarrow> validateAll schema rest (allErrors @ [EV002 cause])
      | Violations errs \<Rightarrow>
          if errs = [] then validateAll schema rest allErrors
          else validateAll schema rest (allErrors @ [EV003 (StatementPredicateType att) errs]))"

definition ValidateAttestationSyntax ::
    "(string \<Rightarrow> string \<Rightarrow> schemaResult) \<Rightarrow> ApplicationSnapshotImage \<Rightarrow> syntaxError option" where
  "ValidateAttestationSyntax schema a =
     (if length (attestations a) = 0 then Some (Precondition ''no attestation data'')
      else (case validateAll schema (attestations a) [] of
              [] \<Rightarrow> None
            | err # errs \<Rightarrow> Some (SyntaxErrors (err # errs))))"

section \<open>Auxiliary definitions for the statements\<close>

text \<open>The indices whose record the first loop keeps.\<close>

definition keptIndex :: "bundleRecord list \<Rightarrow> nat \<Rightarrow> bool" where
  "keptIndex records i =
     (\<not> (Suc i < length records \<and> Digest (records ! Suc i) = Digest (records ! i)))"

text \<open>
  The same selection by recursion from the head of the list: of two neighbours with one
  digest, the one nearer the head (the newer one) goes.
\<close>

fun keepOldest :: "bundleRecord list \<Rightarrow> bundleRecord list" where
  "keepOldest [] = []"
| "keepOldest [r] = [r]"
| "keepOldest (r # p # rs) =
     (if Digest p = Digest r then keepOldest (p # rs) else r # keepOldest (p # rs))"


text \<open>The records of a repository in a collection; none in a nil map or for a missing key.\<close>

definition recordsOf :: "collection option \<Rightarrow> string \<Rightarrow> bundleRecord list" where
  "recordsOf c repository =
     (case c of
        None \<Rightarrow> []
      | Some m \<Rightarrow> (case m repository of None \<Rightarrow> [] | Some records \<Rightarrow> records))"

text \<open>
  \<open>addedOn effective_on t t'\<close>: every list of \<open>t'\<close> is the list of \<open>t\<close> with records in
  front of it that all carry \<open>effective_on\<close>.
\<close>

definition addedOn :: "time \<Rightarrow> Tracker \<Rightarrow> Tracker \<Rightarrow> bool" where
  "addedOn effective_on t t' =
     (\<forall>repository.
        (\<exists>added. recordsOf (PipelineBundles t') repository =
             added @ recordsOf (PipelineBundles t) repository \<and>
           (\<forall>r \<in> set added. EffectiveOn r = effective_on)) \<and>
        (\<exists>added. recordsOf (TaskBundles t') repository =
             added @ recordsOf (TaskBundles t) repository \<and>
           (\<forall>r \<in> set added. EffectiveOn r = effective_on)))"

text \<open>With both maps allocated, as \<^verbatim>\<open>setDefaults\<close> leaves them, no record panics.\<close>

definition allocated :: "Tracker \<Rightarrow> bool" where
  "allocated t = (PipelineBundles t \<noteq> None \<and> TaskBundles t \<noteq> None)"

text \<open>The lines of one collection, when it is present and not empty.\<close>

definition collectionLines ::
    "(time \<Rightarrow> string) \<Rightarrow> string \<Rightarrow> string list \<Rightarrow> collection option \<Rightarrow> string list" where
  "collectionLines rfc3339 name keys c =
     (case c of
        None \<Rightarrow> []
      | Some m \<Rightarrow> if length keys = 0 then []
                  else formatCollection rfc3339 (name, marshalCollection keys m))"

section \<open>Properties of filterRecords\<close>

lemma dedupLoop_prefix:
  "n \<le> length records \<Longrightarrow>
   dedupLoop records (int n - 1) unique =
     map (\<lambda>i. records ! i) (filter (keptIndex records) [0..<n]) @ unique"
proof (induction n arbitrary: unique)
  case 0
  show ?case by (simp add: dedupLoop.simps)
next
  case (Suc n)
  have n: "n \<le> length records" using Suc.prems by simp
  have step: "dedupLoop records (int (Suc n) - 1) unique =
     (if keptIndex records n then dedupLoop records (int n - 1) (records ! n # unique)
      else dedupLoop records (int n - 1) unique)"
  proof -
    have "int (Suc n) - 1 = int n" "nat (int n) = n" "nat (int n + 1) = Suc n"
      by simp_all
    moreover have "(int n < int (length records) - 1) = (Suc n < length records)"
      by auto
    ultimately show ?thesis
      by (subst dedupLoop.simps) (simp add: keptIndex_def Let_def)
  qed
  show ?case
    by (simp only: step) (simp add: Suc.IH [OF n])
qed

lemma uniqueRecords_index:
  "uniqueRecords records =
     map (\<lambda>i. records ! i) (filter (keptIndex records) [0..<length records])"
  using dedupLoop_prefix [of "length records" records "[]"]
  by (simp add: uniqueRecords_def)

lemma keptIndex_Cons: "keptIndex (r # rs) (Suc k) = keptIndex rs k"
  by (simp add: keptIndex_def)

lemma index_filter_Cons:
  "map (\<lambda>i. (r # rs) ! i) (filter (keptIndex (r # rs)) [0..<Suc (length rs)]) =
     (if keptIndex (r # rs) 0 then [r] else []) @
     map (\<lambda>i. rs ! i) (filter (keptIndex rs) [0..<length rs])"
proof -
  have "[0..<Suc (length rs)] = 0 # map Suc [0..<length rs]"
    by (simp add: upt_conv_Cons map_Suc_upt del: upt_Suc)
  then show ?thesis
    by (simp add: filter_map o_def keptIndex_Cons del: upt_Suc)
qed

lemma index_filter_keepOldest:
  "map (\<lambda>i. records ! i) (filter (keptIndex records) [0..<length records]) = keepOldest records"
proof (induction records rule: keepOldest.induct)
  case 1
  show ?case by simp
next
  case (2 r)
  show ?case by (simp add: keptIndex_def)
next
  case (3 r p rs)
  have IH: "map (\<lambda>i. (p # rs) ! i) (filter (keptIndex (p # rs)) [0..<length (p # rs)]) =
      keepOldest (p # rs)"
    using "3.IH" by blast
  have eq: "map (\<lambda>i. (r # p # rs) ! i)
        (filter (keptIndex (r # p # rs)) [0..<length (r # p # rs)]) =
      (if keptIndex (r # p # rs) 0 then [r] else []) @ keepOldest (p # rs)"
    using index_filter_Cons [of r "p # rs"] IH by (simp del: upt_Suc)
  have k0: "keptIndex (r # p # rs) 0 = (Digest p \<noteq> Digest r)"
    by (simp add: keptIndex_def)
  show ?case unfolding eq k0 by simp
qed

lemma uniqueRecords_keepOldest: "uniqueRecords records = keepOldest records"
  by (simp add: uniqueRecords_index index_filter_keepOldest)

lemma keepOldest_digests: "map Digest (keepOldest records) = remdups_adj (map Digest records)"
  by (induction records rule: keepOldest.induct) auto



lemma pruneLoop_False: "pruneLoop now False unique relevant = relevant @ unique"
  by (induction unique arbitrary: relevant) auto

lemma pruneLoop_True:
  "pruneLoop now True unique relevant =
     relevant @ takeWhile (\<lambda>r. now \<le> EffectiveOn r) unique @
       take 1 (dropWhile (\<lambda>r. now \<le> EffectiveOn r) unique)"
  by (induction unique arbitrary: relevant) (auto simp: After_def)


lemma filterRecords_prefix:
  "\<exists>rest. uniqueRecords records = filterRecords now records prune @ rest"
proof (cases prune)
  case True
  let ?u = "uniqueRecords records"
  let ?P = "\<lambda>r::bundleRecord. now \<le> EffectiveOn r"
  have "filterRecords now records True = takeWhile ?P ?u @ take 1 (dropWhile ?P ?u)"
    by (simp add: filterRecords_def Let_def pruneLoop_True)
  moreover have "(takeWhile ?P ?u @ take 1 (dropWhile ?P ?u)) @ drop 1 (dropWhile ?P ?u) = ?u"
    by (simp only: append_assoc append_take_drop_id takeWhile_dropWhile_id)
  ultimately have eq: "?u = filterRecords now records True @ drop 1 (dropWhile ?P ?u)"
    by simp
  from True have p: "prune = True" by simp
  show ?thesis unfolding p
    by (rule exI [of _ "drop 1 (dropWhile ?P ?u)"]) (rule eq)
next
  case False
  then show ?thesis by (simp add: filterRecords_def pruneLoop_False)
qed


subsection \<open>C1: what pruning retains\<close>




subsection \<open>C2: which records the dedup pass drops\<close>

text \<open>
  C2, as amended. The dedup pass of \<^verbatim>\<open>filterRecords\<close> runs from the oldest record (tail)
  to the newest (head) of a newest-first list and drops exactly the records whose digest
  equals the digest of their immediate older neighbour \<open>records[i+1]\<close> (the record the
  loop visited just before); the last record is always kept. So each run of adjacent
  records sharing a digest is collapsed to its oldest member. With \<open>prune = false\<close> the
  result of \<^verbatim>\<open>filterRecords\<close> is the result of this pass.
\<close>

theorem uniqueRecords_drops_newer_duplicates:
  "uniqueRecords records =
     map (\<lambda>i. records ! i)
       (filter (\<lambda>i. \<not> (Suc i < length records \<and> Digest (records ! Suc i) = Digest (records ! i)))
          [0..<length records])
   \<and> filterRecords now records False = uniqueRecords records"
  using uniqueRecords_index [of records]
  by (simp add: keptIndex_def [abs_def] filterRecords_def pruneLoop_False)

text \<open>
  C2 as stated fails on two adjacent records with one digest: the pass keeps the older
  record (tag \<open>old\<close>, at the tail) and drops the newer one (tag \<open>new\<close>, at the head),
  where the claim keeps the newest member of the run.
\<close>

theorem uniqueRecords_keeps_newest_counterexample:
  "uniqueRecords
     [\<lparr>Digest = ''sha256:aaa'', EffectiveOn = 2, Tag = ''new'', Repository = '''', Collection = ''''\<rparr>,
      \<lparr>Digest = ''sha256:aaa'', EffectiveOn = 1, Tag = ''old'', Repository = '''', Collection = ''''\<rparr>] =
     [\<lparr>Digest = ''sha256:aaa'', EffectiveOn = 1, Tag = ''old'', Repository = '''', Collection = ''''\<rparr>]"
  by (simp add: uniqueRecords_def dedupLoop.simps [of _ 1] dedupLoop.simps [of _ 0]
      dedupLoop.simps [of _ "-1"])

subsection \<open>C3: adjacent and non-adjacent duplicates\<close>

text \<open>
  C3, as amended. For every input list and both values of \<open>prune\<close>, the list returned by
  \<^verbatim>\<open>filterRecords\<close> has no two adjacent records with the same digest
  (\<open>distinct_adj\<close>: no element of the list equals its successor). With
  \<open>prune = false\<close> only adjacent duplicates are collapsed: the digests of the result are
  the digests of the input with every run of adjacent equal digests replaced by one
  occurrence, so equal digests in different runs all stay in the output. (With
  \<open>prune = true\<close> the result is a prefix of that list, and records of later runs may
  be pruned.)
\<close>

theorem filterRecords_adjacent_digests:
  "distinct_adj (map Digest (filterRecords now records prune)) \<and>
   map Digest (filterRecords now records False) = remdups_adj (map Digest records)"
proof -
  obtain rest where "uniqueRecords records = filterRecords now records prune @ rest"
    using filterRecords_prefix by blast
  then have "map Digest (filterRecords now records prune) @ map Digest rest =
      map Digest (keepOldest records)"
    by (simp add: uniqueRecords_keepOldest [symmetric])
  then have "distinct_adj (map Digest (filterRecords now records prune) @ map Digest rest)"
    by (simp only: keepOldest_digests distinct_adj_remdups_adj)
  then have "distinct_adj (map Digest (filterRecords now records prune))"
    by (rule distinct_adj_appendD1)
  moreover have "map Digest (filterRecords now records False) = remdups_adj (map Digest records)"
    by (simp add: filterRecords_def pruneLoop_False uniqueRecords_keepOldest keepOldest_digests)
  ultimately show ?thesis by simp
qed

text \<open>
  C3 as stated fails for \<open>prune = true\<close>: at time 10, of three records with digests
  \<open>aaa\<close>, \<open>bbb\<close>, \<open>aaa\<close> effective on 5, 4 and 3, only the first is returned. The two
  records with digest \<open>aaa\<close> are not adjacent in the input, and only one of them remains.
  It also fails for \<open>prune = false\<close> on the digests \<open>aaa\<close>, \<open>aaa\<close>, \<open>bbb\<close>, \<open>aaa\<close>:
  the first record is not adjacent to the last one and has its digest, and it is dropped
  (with its neighbour, the second record, it forms a run).
\<close>

theorem filterRecords_nonadjacent_counterexample:
  "filterRecords 10
     [\<lparr>Digest = ''sha256:aaa'', EffectiveOn = 5, Tag = ''t3'', Repository = '''', Collection = ''''\<rparr>,
      \<lparr>Digest = ''sha256:bbb'', EffectiveOn = 4, Tag = ''t2'', Repository = '''', Collection = ''''\<rparr>,
      \<lparr>Digest = ''sha256:aaa'', EffectiveOn = 3, Tag = ''t1'', Repository = '''', Collection = ''''\<rparr>] True =
     [\<lparr>Digest = ''sha256:aaa'', EffectiveOn = 5, Tag = ''t3'', Repository = '''', Collection = ''''\<rparr>] \<and>
   filterRecords 10
     [\<lparr>Digest = ''sha256:aaa'', EffectiveOn = 40, Tag = ''t4'', Repository = '''', Collection = ''''\<rparr>,
      \<lparr>Digest = ''sha256:aaa'', EffectiveOn = 30, Tag = ''t3'', Repository = '''', Collection = ''''\<rparr>,
      \<lparr>Digest = ''sha256:bbb'', EffectiveOn = 20, Tag = ''t2'', Repository = '''', Collection = ''''\<rparr>,
      \<lparr>Digest = ''sha256:aaa'', EffectiveOn = 15, Tag = ''t1'', Repository = '''', Collection = ''''\<rparr>] False =
     [\<lparr>Digest = ''sha256:aaa'', EffectiveOn = 30, Tag = ''t3'', Repository = '''', Collection = ''''\<rparr>,
      \<lparr>Digest = ''sha256:bbb'', EffectiveOn = 20, Tag = ''t2'', Repository = '''', Collection = ''''\<rparr>,
      \<lparr>Digest = ''sha256:aaa'', EffectiveOn = 15, Tag = ''t1'', Repository = '''', Collection = ''''\<rparr>]"
  by (simp add: filterRecords_def uniqueRecords_def After_def
      dedupLoop.simps [of _ 3] dedupLoop.simps [of _ 2] dedupLoop.simps [of _ 1]
      dedupLoop.simps [of _ 0] dedupLoop.simps [of _ "-1"])

section \<open>Properties of the loop of Track\<close>

lemma addedOn_refl: "addedOn e t t"
  by (simp add: addedOn_def)

lemma addedOn_trans:
  assumes "addedOn e t t'" and "addedOn e t' t''"
  shows "addedOn e t t''"
  unfolding addedOn_def
proof (intro allI conjI)
  fix repository
  obtain a1 where a1: "recordsOf (PipelineBundles t') repository = a1 @ recordsOf (PipelineBundles t) repository"
      "\<forall>r \<in> set a1. EffectiveOn r = e"
    using assms(1) unfolding addedOn_def by blast
  obtain a2 where a2: "recordsOf (PipelineBundles t'') repository = a2 @ recordsOf (PipelineBundles t') repository"
      "\<forall>r \<in> set a2. EffectiveOn r = e"
    using assms(2) unfolding addedOn_def by blast
  have "recordsOf (PipelineBundles t'') repository = (a2 @ a1) @ recordsOf (PipelineBundles t) repository"
    using a1(1) a2(1) by simp
  moreover have "\<forall>r \<in> set (a2 @ a1). EffectiveOn r = e"
    using a1(2) a2(2) by auto
  ultimately show "\<exists>added. recordsOf (PipelineBundles t'') repository =
      added @ recordsOf (PipelineBundles t) repository \<and> (\<forall>r \<in> set added. EffectiveOn r = e)"
    by blast
  obtain b1 where b1: "recordsOf (TaskBundles t') repository = b1 @ recordsOf (TaskBundles t) repository"
      "\<forall>r \<in> set b1. EffectiveOn r = e"
    using assms(1) unfolding addedOn_def by blast
  obtain b2 where b2: "recordsOf (TaskBundles t'') repository = b2 @ recordsOf (TaskBundles t') repository"
      "\<forall>r \<in> set b2. EffectiveOn r = e"
    using assms(2) unfolding addedOn_def by blast
  have "recordsOf (TaskBundles t'') repository = (b2 @ b1) @ recordsOf (TaskBundles t) repository"
    using b1(1) b2(1) by simp
  moreover have "\<forall>r \<in> set (b2 @ b1). EffectiveOn r = e"
    using b1(2) b2(2) by auto
  ultimately show "\<exists>added. recordsOf (TaskBundles t'') repository =
      added @ recordsOf (TaskBundles t) repository \<and> (\<forall>r \<in> set added. EffectiveOn r = e)"
    by blast
qed

lemma prependRecord_recordsOf:
  "prependRecord c record = Inr m \<Longrightarrow>
   recordsOf (Some m) repository =
     (if repository = Repository record then [record] else []) @ recordsOf c repository"
  by (auto simp: prependRecord_def recordsOf_def Let_def split: option.splits)

lemma prependRecord_added:
  assumes "prependRecord c record = Inr m" and "EffectiveOn record = e"
  shows "\<exists>added. recordsOf (Some m) repository = added @ recordsOf c repository \<and>
     (\<forall>r \<in> set added. EffectiveOn r = e)"
proof -
  let ?added = "if repository = Repository record then [record] else []"
  have "recordsOf (Some m) repository = ?added @ recordsOf c repository"
    using assms(1) by (rule prependRecord_recordsOf)
  moreover have "\<forall>r \<in> set ?added. EffectiveOn r = e"
    using assms(2) by simp
  ultimately show ?thesis by blast
qed

lemma addBundleRecord_addedOn:
  assumes "addBundleRecord t record = Inr t'" and "EffectiveOn record = e"
  shows "addedOn e t t'"
proof -
  consider (p) "Collection record = pipelineCollection"
    | (t) "Collection record \<noteq> pipelineCollection" "Collection record = taskCollection"
    | (n) "Collection record \<noteq> pipelineCollection" "Collection record \<noteq> taskCollection"
    by blast
  then show ?thesis
  proof cases
    case p
    then obtain m where m: "prependRecord (PipelineBundles t) record = Inr m"
        and t': "t' = t\<lparr>PipelineBundles := Some m\<rparr>"
      using assms(1) by (auto simp: addBundleRecord_def split: sum.splits)
    show ?thesis
      unfolding addedOn_def t' using prependRecord_added [OF m assms(2)] by simp
  next
    case t
    then obtain m where m: "prependRecord (TaskBundles t) record = Inr m"
        and t': "t' = t\<lparr>TaskBundles := Some m\<rparr>"
      using assms(1) by (auto simp: addBundleRecord_def split: sum.splits)
    show ?thesis
      unfolding addedOn_def t' using prependRecord_added [OF m assms(2)] by simp
  next
    case n
    then have "t' = t" using assms(1) by (simp add: addBundleRecord_def)
    then show ?thesis by (simp add: addedOn_refl)
  qed
qed

lemma addToCollections_addedOn:
  "addToCollections t ref e collections = Inr t' \<Longrightarrow> addedOn e t t'"
proof (induction collections arbitrary: t)
  case Nil
  then show ?case by (simp add: addedOn_refl)
next
  case (Cons collection rest)
  let ?r = "\<lparr>Digest = RefDigest ref, EffectiveOn = e, Tag = RefTag ref,
      Repository = RefRepository ref, Collection = collection\<rparr>"
  from Cons.prems obtain t1 where t1: "addBundleRecord t ?r = Inr t1"
      and rest: "addToCollections t1 ref e rest = Inr t'"
    by (auto split: sum.splits)
  have "addedOn e t t1" using t1 by (rule addBundleRecord_addedOn) simp
  moreover have "addedOn e t1 t'" using rest by (rule Cons.IH)
  ultimately show ?case by (rule addedOn_trans)
qed

lemma trackRefs_addedOn:
  "trackRefs newBundleInfo t e refs = Inr t' \<Longrightarrow> addedOn e t t'"
proof (induction refs arbitrary: t)
  case Nil
  then show ?case by (simp add: addedOn_refl)
next
  case (Cons ref refs)
  from Cons.prems obtain collections t1 where "newBundleInfo ref = Inr collections"
      and t1: "addToCollections t ref e collections = Inr t1"
      and rest: "trackRefs newBundleInfo t1 e refs = Inr t'"
    by (auto split: sum.splits)
  have "addedOn e t t1" using t1 by (rule addToCollections_addedOn)
  moreover have "addedOn e t1 t'" using rest by (rule Cons.IH)
  ultimately show ?case by (rule addedOn_trans)
qed

lemma setDefaults_allocated: "allocated (setDefaults t)"
  by (simp add: allocated_def setDefaults_def Let_def)

lemma addBundleRecord_allocated:
  "allocated t \<Longrightarrow> \<exists>t'. addBundleRecord t record = Inr t' \<and> allocated t'"
  by (auto simp: allocated_def addBundleRecord_def prependRecord_def Let_def split: option.splits)

lemma addToCollections_allocated:
  "allocated t \<Longrightarrow> \<exists>t'. addToCollections t ref e collections = Inr t' \<and> allocated t'"
proof (induction collections arbitrary: t)
  case Nil
  then show ?case by simp
next
  case (Cons collection rest)
  let ?r = "\<lparr>Digest = RefDigest ref, EffectiveOn = e, Tag = RefTag ref,
      Repository = RefRepository ref, Collection = collection\<rparr>"
  obtain t1 where t1: "addBundleRecord t ?r = Inr t1" "allocated t1"
    using addBundleRecord_allocated [OF Cons.prems] by blast
  obtain t' where "addToCollections t1 ref e rest = Inr t'" "allocated t'"
    using Cons.IH [OF t1(2)] by blast
  with t1 show ?case by simp
qed

lemma trackRefs_allocated:
  "allocated t \<Longrightarrow> \<forall>ref \<in> set refs. \<exists>collections. newBundleInfo ref = Inr collections \<Longrightarrow>
   \<exists>t'. trackRefs newBundleInfo t e refs = Inr t' \<and> allocated t'"
proof (induction refs arbitrary: t)
  case Nil
  then show ?case by simp
next
  case (Cons ref refs)
  obtain collections where c: "newBundleInfo ref = Inr collections"
    using Cons.prems(2) by auto
  obtain t1 where t1: "addToCollections t ref e collections = Inr t1" "allocated t1"
    using addToCollections_allocated [OF Cons.prems(1)] by blast
  have "\<forall>ref \<in> set refs. \<exists>collections. newBundleInfo ref = Inr collections"
    using Cons.prems(2) by simp
  then obtain t' where "trackRefs newBundleInfo t1 e refs = Inr t'" "allocated t'"
    using Cons.IH [OF t1(2)] by blast
  with c t1 show ?case by simp
qed

section \<open>Properties of effectiveOn\<close>

text \<open>
  C4, as amended. \<^verbatim>\<open>effectiveOn\<close> returns the current time plus 30 days, in UTC, rounded
  to the nearest midnight (half a day rounds up): hours, minutes, seconds and nanoseconds
  are all zero, and the result is midnight UTC at the start of the day 30 days ahead when
  the current UTC time of day is before 12:00, and of the day 31 days ahead from 12:00 on.
  The loop of \<^verbatim>\<open>Track\<close>, run with this value on a tracker whose maps are allocated and on
  references whose bundle information is read without error, returns a tracker in which
  every list is the former list with the added records in front, and every added record
  carries this value as its \<open>effective_on\<close>.
\<close>

theorem effectiveOn_nearest_midnight:
  "effectiveOn now mod (24 * Hour) = 0 \<and>
   effectiveOn now =
     (if now mod (24 * Hour) < 12 * Hour
      then now - now mod (24 * Hour) + 30 * (24 * Hour)
      else now - now mod (24 * Hour) + 31 * (24 * Hour)) \<and>
   (allocated t \<and> (\<forall>ref \<in> set refs. \<exists>collections. newBundleInfo ref = Inr collections) \<longrightarrow>
      (\<exists>t'. trackRefs newBundleInfo t (effectiveOn now) refs = Inr t' \<and>
         addedOn (effectiveOn now) t t'))"
proof -
  define d :: int where "d = 86400000000000"
  have d: "Hour * 24 = d" "24 * Hour = d" "12 * Hour * 2 = d" "0 < d"
    by (simp_all add: Hour_def Minute_def Second_def Nanosecond_def d_def)
  have r: "(now + d * 30) mod d = now mod d"
    by simp
  have m: "(now - now mod d + k * d) mod d = 0" for k
    by (simp add: minus_mod_eq_mult_div)
  have half: "(2 * (now mod d) < d) = (now mod d < 12 * Hour)"
    using d(3) by linarith
  have eq: "effectiveOn now =
      (if now mod d < 12 * Hour then now - now mod d + 30 * d else now - now mod d + 31 * d)"
    using d(4) by (simp add: effectiveOn_def Round_def UTC_def Add_def Let_def d(1) r half)
  have midnight: "effectiveOn now mod (24 * Hour) = 0"
    unfolding d(2) eq using m [of 30] m [of 31] by simp
  have track: "\<exists>t'. trackRefs newBundleInfo t (effectiveOn now) refs = Inr t' \<and>
      addedOn (effectiveOn now) t t'"
    if A: "allocated t" and B: "\<forall>ref \<in> set refs. \<exists>collections. newBundleInfo ref = Inr collections"
  proof -
    obtain t' where t': "trackRefs newBundleInfo t (effectiveOn now) refs = Inr t'"
      using trackRefs_allocated [OF A B] by blast
    then have "addedOn (effectiveOn now) t t'" by (rule trackRefs_addedOn)
    with t' show ?thesis by blast
  qed
  show ?thesis
    using midnight eq [folded d(2)] track by blast
qed

text \<open>
  Day 738838 after the zero time is 2023-11-15. At 09:00 UTC on that day the value is
  midnight of day 738868 (2023-12-15), and a bundle with a pipeline and a task gets one
  record with that value in each collection of the tracker that \<^verbatim>\<open>setDefaults\<close> allocated.
\<close>

theorem effectiveOn_nearest_midnight_witness:
  "allocated (setDefaults \<lparr>PipelineBundles = None, TaskBundles = None\<rparr>) \<and>
   effectiveOn (738838 * (24 * Hour) + 9 * Hour) = 738868 * (24 * Hour) \<and>
   (\<exists>t'. trackRefs (\<lambda>ref. Inr [''pipeline-bundles'', ''task-bundles''])
            (setDefaults \<lparr>PipelineBundles = None, TaskBundles = None\<rparr>)
            (effectiveOn (738838 * (24 * Hour) + 9 * Hour))
            [\<lparr>RefRepository = ''registry.io/repository/bundle'', RefTag = ''tag'',
              RefDigest = ''sha256:dabbad00''\<rparr>] = Inr t' \<and>
      addedOn (effectiveOn (738838 * (24 * Hour) + 9 * Hour))
        (setDefaults \<lparr>PipelineBundles = None, TaskBundles = None\<rparr>) t')"
proof -
  let ?t = "setDefaults \<lparr>PipelineBundles = None, TaskBundles = None\<rparr>"
  let ?refs = "[\<lparr>RefRepository = ''registry.io/repository/bundle'', RefTag = ''tag'',
              RefDigest = ''sha256:dabbad00''\<rparr>]"
  let ?info = "\<lambda>ref :: ImageReference. (Inr [''pipeline-bundles'', ''task-bundles''] :: string + string list)"
  have a: "allocated ?t" by (rule setDefaults_allocated)
  have b: "\<forall>ref \<in> set ?refs. \<exists>collections. ?info ref = Inr collections" by simp
  have c: "effectiveOn (738838 * (24 * Hour) + 9 * Hour) = 738868 * (24 * Hour)"
    by (simp add: effectiveOn_def Round_def UTC_def Add_def Let_def
        Hour_def Minute_def Second_def Nanosecond_def)
  from effectiveOn_nearest_midnight [of "738838 * (24 * Hour) + 9 * Hour" ?t ?refs ?info] a b
  have "\<exists>t'. trackRefs ?info ?t (effectiveOn (738838 * (24 * Hour) + 9 * Hour)) ?refs = Inr t' \<and>
      addedOn (effectiveOn (738838 * (24 * Hour) + 9 * Hour)) ?t t'"
    by blast
  with a c show ?thesis by blast
qed

text \<open>
  C4 as stated fails in the afternoon. At 13:00 UTC on day 738838 (2023-11-15)
  \<^verbatim>\<open>effectiveOn\<close> returns midnight of day 738869 (2023-12-16), 31 days ahead, where
  rounding down gives midnight of day 738868 (2023-12-15).
\<close>

theorem effectiveOn_rounds_up_counterexample:
  "effectiveOn (738838 * (24 * Hour) + 13 * Hour) = (738838 + 31) * (24 * Hour) \<and>
   effectiveOn (738838 * (24 * Hour) + 13 * Hour) \<noteq>
     (738838 * (24 * Hour) + 13 * Hour + 30 * (24 * Hour)) div (24 * Hour) * (24 * Hour)"
  by (simp add: effectiveOn_def Round_def UTC_def Add_def Let_def
      Hour_def Minute_def Second_def Nanosecond_def)

section \<open>Properties of addBundleRecord\<close>

text \<open>
  C10. For every tracker (its maps allocated or nil) and every record whose collection
  is neither \<open>pipeline-bundles\<close> nor \<open>task-bundles\<close>, \<^verbatim>\<open>addBundleRecord\<close> returns without
  a panic and leaves the tracker as it was: nothing is added to either collection and no
  list is changed.
\<close>

theorem addBundleRecord_unexpected_collection:
  "Collection record \<noteq> pipelineCollection \<Longrightarrow> Collection record \<noteq> taskCollection \<Longrightarrow>
   addBundleRecord t record = Inr t"
  by (simp add: addBundleRecord_def)

theorem addBundleRecord_unexpected_collection_witness:
  "Collection \<lparr>Digest = ''sha256:aaa'', EffectiveOn = 30, Tag = ''t1'',
       Repository = ''registry/repo'', Collection = ''step-bundles''\<rparr> \<noteq> pipelineCollection \<and>
   Collection \<lparr>Digest = ''sha256:aaa'', EffectiveOn = 30, Tag = ''t1'',
       Repository = ''registry/repo'', Collection = ''step-bundles''\<rparr> \<noteq> taskCollection \<and>
   addBundleRecord \<lparr>PipelineBundles = Some Map.empty, TaskBundles = None\<rparr>
     \<lparr>Digest = ''sha256:aaa'', EffectiveOn = 30, Tag = ''t1'',
       Repository = ''registry/repo'', Collection = ''step-bundles''\<rparr> =
     Inr \<lparr>PipelineBundles = Some Map.empty, TaskBundles = None\<rparr>"
proof -
  let ?r = "\<lparr>Digest = ''sha256:aaa'', EffectiveOn = 30, Tag = ''t1'',
       Repository = ''registry/repo'', Collection = ''step-bundles''\<rparr>"
  have h1: "Collection ?r \<noteq> pipelineCollection" by (simp add: pipelineCollection_def)
  have h2: "Collection ?r \<noteq> taskCollection" by (simp add: taskCollection_def)
  show ?thesis
    using h1 h2 addBundleRecord_unexpected_collection [OF h1 h2] by simp
qed

section \<open>Properties of Output\<close>

lemma filter_key_distinct:
  "distinct (map fst xs) \<Longrightarrow> e \<in> set xs \<Longrightarrow> filter (\<lambda>x. fst e = fst x) xs = [e]"
proof (induction xs)
  case Nil
  then show ?case by simp
next
  case (Cons x xs)
  show ?case
  proof (cases "e = x")
    case True
    have "filter (\<lambda>y. fst x = fst y) xs = []"
      using Cons.prems(1) by (auto simp: filter_empty_conv)
    with True show ?thesis by simp
  next
    case False
    then have "e \<in> set xs" using Cons.prems(2) by simp
    moreover have "fst e \<noteq> fst x"
    proof -
      from \<open>e \<in> set xs\<close> have "fst e \<in> fst ` set xs" by (rule imageI)
      moreover have "fst x \<notin> fst ` set xs" using Cons.prems(1) by simp
      ultimately show ?thesis by (rule_tac notI) simp
    qed
    ultimately show ?thesis using Cons by simp
  qed
qed

lemma sort_key_fst_unique:
  assumes "distinct (map fst xs)" and "mset xs = mset ys"
  shows "sort_key fst xs = sort_key fst ys"
proof (rule properties_for_sort_key)
  show "mset (sort_key fst ys) = mset xs" using assms(2) by simp
  show "sorted (map fst (sort_key fst ys))" by simp
  have dy: "distinct (map fst ys)"
    using assms by (metis distinct_map mset_eq_setD mset_map mset_eq_imp_distinct_iff)
  fix k assume "k \<in> set (sort_key fst ys)"
  then have ky: "k \<in> set ys" by simp
  then have kx: "k \<in> set xs" using assms(2) by (metis mset_eq_setD)
  have "filter (\<lambda>x. fst k = fst x) (sort_key fst ys) = sort_key fst (filter (\<lambda>x. fst k = fst x) ys)"
    by (simp add: filter_sort)
  also have "\<dots> = [k]" using filter_key_distinct [OF dy ky] by simp
  also have "\<dots> = filter (\<lambda>x. fst k = fst x) xs" using filter_key_distinct [OF assms(1) kx] by simp
  finally show "filter (\<lambda>x. fst k = fst x) (sort_key fst ys) = filter (\<lambda>x. fst k = fst x) xs" .
qed

lemma marshalCollection_map:
  "set keys = dom m \<Longrightarrow> marshalCollection keys m = map (\<lambda>repository. (repository, the (m repository))) keys"
proof -
  assume "set keys = dom m"
  then have "\<forall>k \<in> set keys. m k \<noteq> None" by auto
  then show ?thesis
    unfolding marshalCollection_def
    by (induction keys) (auto simp: List.map_filter_simps)
qed

lemma marshalCollection_order:
  assumes "rangesOver keys1 (Some m)" and "rangesOver keys2 (Some m)"
  shows "sort_key fst (marshalCollection keys1 m) = sort_key fst (marshalCollection keys2 m)"
proof -
  let ?f = "\<lambda>repository. (repository, the (m repository))"
  have k: "distinct keys1" "distinct keys2" "set keys1 = dom m" "set keys2 = dom m"
    using assms by (simp_all add: rangesOver_def)
  have ms: "mset keys1 = mset keys2"
    using k by (simp add: set_eq_iff_mset_eq_distinct [symmetric])
  have "distinct (map fst (map ?f keys1))"
    using k(1) by (simp add: o_def)
  moreover have "mset (map ?f keys1) = mset (map ?f keys2)"
    using ms by (metis mset_map)
  ultimately have "sort_key fst (map ?f keys1) = sort_key fst (map ?f keys2)"
    by (rule sort_key_fst_unique)
  then show ?thesis
    by (simp add: marshalCollection_map k)
qed

lemma rangesOver_empty:
  "rangesOver keys1 c \<Longrightarrow> rangesOver keys2 c \<Longrightarrow> (length keys1 = 0) = (length keys2 = 0)"
  by (auto simp: rangesOver_def)

lemma collection_key_order: "pipelineCollection < taskCollection"
  by (simp add: pipelineCollection_def taskCollection_def)

lemma Output_lines:
  "Output rfc3339 pipelineKeys taskKeys t =
     Inr (concat (map (\<lambda>line. line @ [CHR 0x0A])
       (collectionLines rfc3339 pipelineCollection pipelineKeys (PipelineBundles t) @
        collectionLines rfc3339 taskCollection taskKeys (TaskBundles t))))"
proof (cases "PipelineBundles t")
  case None
  then show ?thesis
    by (cases "TaskBundles t")
      (simp_all add: Output_def Marshal_def Format_def collectionLines_def)
next
  case (Some m)
  then show ?thesis
    by (cases "TaskBundles t")
      (simp_all add: Output_def Marshal_def Format_def collectionLines_def
        less_imp_le [OF collection_key_order])
qed

lemma collectionLines_order:
  assumes "rangesOver keys1 c" and "rangesOver keys2 c"
  shows "collectionLines rfc3339 name keys1 c = collectionLines rfc3339 name keys2 c"
proof (cases c)
  case None
  then show ?thesis by (simp add: collectionLines_def)
next
  case (Some m)
  have "(length keys1 = 0) = (length keys2 = 0)"
    using assms by (rule rangesOver_empty)
  moreover have "sort_key fst (marshalCollection keys1 m) = sort_key fst (marshalCollection keys2 m)"
    using marshalCollection_order [of keys1 m keys2] assms Some by simp
  ultimately show ?thesis
    using Some by (simp add: collectionLines_def formatCollection_def)
qed

lemma rangesOver_sort: "rangesOver keys c \<Longrightarrow> rangesOver (sort keys) c"
  by (simp add: rangesOver_def)

text \<open>
  C9. For every tracker, \<^verbatim>\<open>Output\<close> does not depend on the order in which the maps of
  the tracker are iterated: two serializations of the same state, whatever order each
  finds the repositories in, give the same bytes, and they are the bytes written with the
  repositories in sorted order.
\<close>

theorem Output_deterministic:
  "rangesOver pipelineKeys1 (PipelineBundles t) \<Longrightarrow> rangesOver pipelineKeys2 (PipelineBundles t) \<Longrightarrow>
   rangesOver taskKeys1 (TaskBundles t) \<Longrightarrow> rangesOver taskKeys2 (TaskBundles t) \<Longrightarrow>
   Output rfc3339 pipelineKeys1 taskKeys1 t = Output rfc3339 pipelineKeys2 taskKeys2 t \<and>
   Output rfc3339 pipelineKeys1 taskKeys1 t = Output rfc3339 (sort pipelineKeys1) (sort taskKeys1) t"
proof -
  assume p: "rangesOver pipelineKeys1 (PipelineBundles t)" "rangesOver pipelineKeys2 (PipelineBundles t)"
    and q: "rangesOver taskKeys1 (TaskBundles t)" "rangesOver taskKeys2 (TaskBundles t)"
  have "Output rfc3339 pipelineKeys1 taskKeys1 t = Output rfc3339 pipelineKeys2 taskKeys2 t"
    unfolding Output_lines
    by (simp only: collectionLines_order [OF p] collectionLines_order [OF q])
  moreover have "Output rfc3339 pipelineKeys1 taskKeys1 t =
      Output rfc3339 (sort pipelineKeys1) (sort taskKeys1) t"
    unfolding Output_lines
    by (simp only: collectionLines_order [OF p(1) rangesOver_sort [OF p(1)]]
        collectionLines_order [OF q(1) rangesOver_sort [OF q(1)]])
  ultimately show ?thesis by simp
qed

text \<open>
  Two repositories, visited as \<open>quay.io/b, quay.io/a\<close> in one serialization and as
  \<open>quay.io/a, quay.io/b\<close> in the other: the same bytes, \<open>quay.io/a\<close> first.
\<close>

theorem Output_deterministic_witness:
  "rangesOver [''quay.io/b'', ''quay.io/a'']
     (PipelineBundles \<lparr>PipelineBundles = Some
        [''quay.io/a'' \<mapsto> [\<lparr>Digest = ''sha256:aaa'', EffectiveOn = 30, Tag = ''t1'',
           Repository = '''', Collection = ''''\<rparr>],
         ''quay.io/b'' \<mapsto> [\<lparr>Digest = ''sha256:bbb'', EffectiveOn = 30, Tag = ''t2'',
           Repository = '''', Collection = ''''\<rparr>]],
       TaskBundles = Some Map.empty\<rparr>) \<and>
   rangesOver [''quay.io/a'', ''quay.io/b'']
     (PipelineBundles \<lparr>PipelineBundles = Some
        [''quay.io/a'' \<mapsto> [\<lparr>Digest = ''sha256:aaa'', EffectiveOn = 30, Tag = ''t1'',
           Repository = '''', Collection = ''''\<rparr>],
         ''quay.io/b'' \<mapsto> [\<lparr>Digest = ''sha256:bbb'', EffectiveOn = 30, Tag = ''t2'',
           Repository = '''', Collection = ''''\<rparr>]],
       TaskBundles = Some Map.empty\<rparr>) \<and>
   Output (\<lambda>t. ''2023-12-15T00:00:00Z'') [''quay.io/b'', ''quay.io/a''] []
     \<lparr>PipelineBundles = Some
        [''quay.io/a'' \<mapsto> [\<lparr>Digest = ''sha256:aaa'', EffectiveOn = 30, Tag = ''t1'',
           Repository = '''', Collection = ''''\<rparr>],
         ''quay.io/b'' \<mapsto> [\<lparr>Digest = ''sha256:bbb'', EffectiveOn = 30, Tag = ''t2'',
           Repository = '''', Collection = ''''\<rparr>]],
       TaskBundles = Some Map.empty\<rparr> =
   Output (\<lambda>t. ''2023-12-15T00:00:00Z'') [''quay.io/a'', ''quay.io/b''] []
     \<lparr>PipelineBundles = Some
        [''quay.io/a'' \<mapsto> [\<lparr>Digest = ''sha256:aaa'', EffectiveOn = 30, Tag = ''t1'',
           Repository = '''', Collection = ''''\<rparr>],
         ''quay.io/b'' \<mapsto> [\<lparr>Digest = ''sha256:bbb'', EffectiveOn = 30, Tag = ''t2'',
           Repository = '''', Collection = ''''\<rparr>]],
       TaskBundles = Some Map.empty\<rparr> \<and>
   Output (\<lambda>t. ''2023-12-15T00:00:00Z'') [''quay.io/b'', ''quay.io/a''] []
     \<lparr>PipelineBundles = Some
        [''quay.io/a'' \<mapsto> [\<lparr>Digest = ''sha256:aaa'', EffectiveOn = 30, Tag = ''t1'',
           Repository = '''', Collection = ''''\<rparr>],
         ''quay.io/b'' \<mapsto> [\<lparr>Digest = ''sha256:bbb'', EffectiveOn = 30, Tag = ''t2'',
           Repository = '''', Collection = ''''\<rparr>]],
       TaskBundles = Some Map.empty\<rparr> =
   Inr (concat (map (\<lambda>line. line @ [CHR 0x0A])
     [''pipeline-bundles:'',
      ''  quay.io/a:'',
      ''    - digest: sha256:aaa'',
      ''      effective_on: 2023-12-15T00:00:00Z'',
      ''      tag: t1'',
      ''  quay.io/b:'',
      ''    - digest: sha256:bbb'',
      ''      effective_on: 2023-12-15T00:00:00Z'',
      ''      tag: t2'']))"
proof -
  let ?t = "\<lparr>PipelineBundles = Some
        [''quay.io/a'' \<mapsto> [\<lparr>Digest = ''sha256:aaa'', EffectiveOn = 30, Tag = ''t1'',
           Repository = '''', Collection = ''''\<rparr>],
         ''quay.io/b'' \<mapsto> [\<lparr>Digest = ''sha256:bbb'', EffectiveOn = 30, Tag = ''t2'',
           Repository = '''', Collection = ''''\<rparr>]],
       TaskBundles = Some Map.empty\<rparr>"
  have p1: "rangesOver [''quay.io/b'', ''quay.io/a''] (PipelineBundles ?t)"
    by (auto simp: rangesOver_def)
  have p2: "rangesOver [''quay.io/a'', ''quay.io/b''] (PipelineBundles ?t)"
    by (auto simp: rangesOver_def)
  have q: "rangesOver [] (TaskBundles ?t)"
    by (simp add: rangesOver_def)
  have bytes: "Output (\<lambda>t. ''2023-12-15T00:00:00Z'') [''quay.io/a'', ''quay.io/b''] [] ?t =
    Inr (concat (map (\<lambda>line. line @ [CHR 0x0A])
     [''pipeline-bundles:'',
      ''  quay.io/a:'',
      ''    - digest: sha256:aaa'',
      ''      effective_on: 2023-12-15T00:00:00Z'',
      ''      tag: t1'',
      ''  quay.io/b:'',
      ''    - digest: sha256:bbb'',
      ''      effective_on: 2023-12-15T00:00:00Z'',
      ''      tag: t2'']))"
    by (simp add: Output_lines collectionLines_def formatCollection_def formatRepository_def
        formatRecord_def marshalCollection_def List.map_filter_simps pipelineCollection_def)
  from Output_deterministic [OF p1 p2 q q, of "\<lambda>t. ''2023-12-15T00:00:00Z''"]
  have "Output (\<lambda>t. ''2023-12-15T00:00:00Z'') [''quay.io/b'', ''quay.io/a''] [] ?t =
      Output (\<lambda>t. ''2023-12-15T00:00:00Z'') [''quay.io/a'', ''quay.io/b''] [] ?t"
    by (rule conjunct1)
  with p1 p2 bytes show ?thesis by simp
qed

section \<open>Properties of the claim verifiers\<close>

text \<open>
  C5. The image claim verifier accepts a candidate signature (returns nil) if and only if
  the \<open>docker-manifest-digest\<close> of the signed payload equals, as a string, the expected
  digest in the full \<open>algo:hex\<close> form, and for every pair of the expected annotations the
  optional map of the payload has that key with an equal value. A digest mismatch yields
  the error \<open>invalid or missing digest in claim: \<close> followed by the claimed digest; with the
  digest right, an absent or unequal annotation yields \<open>missing or incorrect annotation\<close>.
\<close>

theorem imageClaimVerifier_accepts_iff:
  "(imageClaimVerifier payload digest annotations = None) =
     (DockerManifestDigest (Image (Critical payload)) = Algorithm digest @ '':'' @ Hex digest \<and>
      (\<forall>(key, val) \<in> set annotations. Optional payload key = Some val)) \<and>
   (DockerManifestDigest (Image (Critical payload)) \<noteq> Algorithm digest @ '':'' @ Hex digest \<longrightarrow>
      map_option Error (imageClaimVerifier payload digest annotations) =
        Some (''invalid or missing digest in claim: '' @ DockerManifestDigest (Image (Critical payload)))) \<and>
   (DockerManifestDigest (Image (Critical payload)) = Algorithm digest @ '':'' @ Hex digest \<and>
    (\<exists>(key, val) \<in> set annotations. Optional payload key \<noteq> Some val) \<longrightarrow>
      map_option Error (imageClaimVerifier payload digest annotations) =
        Some ''missing or incorrect annotation'')"
  by (auto simp: imageClaimVerifier_def String_def Let_def list_all_iff)

text \<open>
  The rows \<open>happy day with annotations\<close>, \<open>bad digest\<close> and \<open>incorrect annotation\<close> of the
  table of \<^verbatim>\<open>TestValidateImageSignatureClaims\<close>.
\<close>

theorem imageClaimVerifier_test_table:
  "imageClaimVerifier
     \<lparr>Critical = \<lparr>Image = \<lparr>DockerManifestDigest = ''sha256:dabbad00''\<rparr>\<rparr>,
      Optional = [''a'' \<mapsto> ''x'', ''b'' \<mapsto> ''y'']\<rparr>
     \<lparr>Algorithm = ''sha256'', Hex = ''dabbad00''\<rparr> [(''a'', ''x''), (''b'', ''y'')] = None \<and>
   map_option Error (imageClaimVerifier
     \<lparr>Critical = \<lparr>Image = \<lparr>DockerManifestDigest = ''sha256:ffbaddD11''\<rparr>\<rparr>,
      Optional = (Map.empty :: string \<rightharpoonup> string)\<rparr>
     \<lparr>Algorithm = ''sha256'', Hex = ''dabbad00''\<rparr> []) =
     Some ''invalid or missing digest in claim: sha256:ffbaddD11'' \<and>
   map_option Error (imageClaimVerifier
     \<lparr>Critical = \<lparr>Image = \<lparr>DockerManifestDigest = ''sha256:dabbad00''\<rparr>\<rparr>,
      Optional = [''a'' \<mapsto> ''y'']\<rparr>
     \<lparr>Algorithm = ''sha256'', Hex = ''dabbad00''\<rparr> [(''a'', ''x'')]) =
     Some ''missing or incorrect annotation''"
  using imageClaimVerifier_accepts_iff
      [of "\<lparr>Critical = \<lparr>Image = \<lparr>DockerManifestDigest = ''sha256:dabbad00''\<rparr>\<rparr>,
            Optional = [''a'' \<mapsto> ''x'', ''b'' \<mapsto> ''y'']\<rparr>"
          "\<lparr>Algorithm = ''sha256'', Hex = ''dabbad00''\<rparr>" "[(''a'', ''x''), (''b'', ''y'')]"]
    imageClaimVerifier_accepts_iff
      [of "\<lparr>Critical = \<lparr>Image = \<lparr>DockerManifestDigest = ''sha256:ffbaddD11''\<rparr>\<rparr>,
            Optional = (Map.empty :: string \<rightharpoonup> string)\<rparr>"
          "\<lparr>Algorithm = ''sha256'', Hex = ''dabbad00''\<rparr>" "[]"]
    imageClaimVerifier_accepts_iff
      [of "\<lparr>Critical = \<lparr>Image = \<lparr>DockerManifestDigest = ''sha256:dabbad00''\<rparr>\<rparr>,
            Optional = [''a'' \<mapsto> ''y'']\<rparr>"
          "\<lparr>Algorithm = ''sha256'', Hex = ''dabbad00''\<rparr>" "[(''a'', ''x'')]"]
  by simp

lemma subjectLoop_iff:
  "(subjectLoop digest subjects = None) =
     (\<exists>subj \<in> set subjects. DigestSet subj (Algorithm digest) = Some (Hex digest))"
  by (induction subjects) auto

lemma subjectLoop_cases:
  "subjectLoop digest subjects = None \<or> subjectLoop digest subjects = Some NoMatchingSubjectDigest"
  by (induction subjects) auto

text \<open>
  C6. The attestation claim verifier accepts (returns nil) if and only if the subject
  array of the statement has at least one entry whose digest map holds, under the expected
  algorithm, the expected hex; strings are compared as they are, so the comparison is
  case-sensitive. Otherwise it returns the error \<open>no matching subject digest found\<close>; so
  it does for an empty subject array and for the empty statement.
\<close>

theorem attestationClaimVerifier_accepts_iff:
  "attestationClaimVerifier statement digest =
     (if \<exists>subj \<in> set (Subject statement). DigestSet subj (Algorithm digest) = Some (Hex digest)
      then None else Some NoMatchingSubjectDigest) \<and>
   Error NoMatchingSubjectDigest = ''no matching subject digest found'' \<and>
   attestationClaimVerifier \<lparr>Type = '''', PredicateType = '''', Subject = []\<rparr> digest =
     Some NoMatchingSubjectDigest"
  using subjectLoop_iff [of digest "Subject statement"] subjectLoop_cases [of digest "Subject statement"]
  by (auto simp: attestationClaimVerifier_def)

text \<open>
  The rows \<open>happy day - multiple digests\<close> and \<open>mismatched digests\<close> of the table of
  \<^verbatim>\<open>TestValidateAttestationSignatureClaims\<close>, and a subject whose hex differs from the
  expected one in case only.
\<close>

theorem attestationClaimVerifier_test_table:
  "attestationClaimVerifier
     \<lparr>Type = '''', PredicateType = '''',
      Subject = [\<lparr>Name = '''', DigestSet = [''sha512'' \<mapsto> ''dead10cc'', ''sha256'' \<mapsto> ''dabbad00'']\<rparr>]\<rparr>
     \<lparr>Algorithm = ''sha256'', Hex = ''dabbad00''\<rparr> = None \<and>
   attestationClaimVerifier
     \<lparr>Type = '''', PredicateType = '''',
      Subject = [\<lparr>Name = '''', DigestSet = [''sha256'' \<mapsto> ''dead10cc'']\<rparr>]\<rparr>
     \<lparr>Algorithm = ''sha256'', Hex = ''dabbad00''\<rparr> = Some NoMatchingSubjectDigest \<and>
   attestationClaimVerifier
     \<lparr>Type = '''', PredicateType = '''',
      Subject = [\<lparr>Name = '''', DigestSet = [''sha256'' \<mapsto> ''DABBAD00'']\<rparr>]\<rparr>
     \<lparr>Algorithm = ''sha256'', Hex = ''dabbad00''\<rparr> = Some NoMatchingSubjectDigest"
  using attestationClaimVerifier_accepts_iff
      [of "\<lparr>Type = '''', PredicateType = '''',
            Subject = [\<lparr>Name = '''', DigestSet = [''sha512'' \<mapsto> ''dead10cc'', ''sha256'' \<mapsto> ''dabbad00'']\<rparr>]\<rparr>"
          "\<lparr>Algorithm = ''sha256'', Hex = ''dabbad00''\<rparr>"]
    attestationClaimVerifier_accepts_iff
      [of "\<lparr>Type = '''', PredicateType = '''',
            Subject = [\<lparr>Name = '''', DigestSet = [''sha256'' \<mapsto> ''dead10cc'']\<rparr>]\<rparr>"
          "\<lparr>Algorithm = ''sha256'', Hex = ''dabbad00''\<rparr>"]
    attestationClaimVerifier_accepts_iff
      [of "\<lparr>Type = '''', PredicateType = '''',
            Subject = [\<lparr>Name = '''', DigestSet = [''sha256'' \<mapsto> ''DABBAD00'']\<rparr>]\<rparr>"
          "\<lparr>Algorithm = ''sha256'', Hex = ''dabbad00''\<rparr>"]
  by simp

section \<open>Properties of ValidateAttestationSyntax\<close>

text \<open>
  C8. On an aggregate for which no attestations have been collected,
  \<^verbatim>\<open>ValidateAttestationSyntax\<close> returns the error \<open>no attestation data\<close>: a failed
  precondition, neither a success nor an error with an \<open>EV\<close> code, whatever the schemas.
\<close>

theorem ValidateAttestationSyntax_no_attestations:
  "attestations a = [] \<Longrightarrow>
   ValidateAttestationSyntax schema a = Some (Precondition ''no attestation data'')"
  by (simp add: ValidateAttestationSyntax_def)

text \<open>The zero-valued aggregate of \<^verbatim>\<open>TestSyntaxValidationWithoutAttestations\<close>.\<close>

theorem ValidateAttestationSyntax_no_attestations_witness:
  "attestations \<lparr>reference = '''', attestations = []\<rparr> = [] \<and>
   ValidateAttestationSyntax (\<lambda>predicateType statement. Violations [])
     \<lparr>reference = '''', attestations = []\<rparr> = Some (Precondition ''no attestation data'')"
  using ValidateAttestationSyntax_no_attestations
    [of "\<lparr>reference = '''', attestations = []\<rparr>" "\<lambda>predicateType statement. Violations []"]
  by simp

end
